theory Spec2Isabelle
  imports
    Complex_Main
    "HOL-Library.Word"
    "HOL-Library.List_Lexorder"
    "HOL-Library.Char_ord"
begin

section \<open>Region tree (server/core/region\_tree.go)\<close>

subsection \<open>Regions\<close>

text \<open>
  A key is a Go byte slice; \<^typ>\<open>char\<close> is a byte and the order on \<^typ>\<open>string\<close>
  (lexicographic, bytes compared by their value) is that of \<^verbatim>\<open>bytes.Compare\<close>.

  \<^verbatim>\<open>RegionInfo\<close> is declared outside the files at hand; the record below
  holds what the region tree and the operator controller read from it: the id, the key range,
  the epoch, \<^verbatim>\<open>approximateSize\<close> (an int64) and the pair returned by
  \<^verbatim>\<open>GetWriteRate()\<close>. The two write rates are float64 in the source and are
  idealised here as real numbers (no rounding).
\<close>

type_synonym key = string

record RegionInfo =
  GetID :: "64 word"
  GetStartKey :: key
  GetEndKey :: key
  GetConfVer :: "64 word"
  GetVersion :: "64 word"
  approximateSize :: "64 word"
  writeBytesRate :: real
  writeKeysRate :: real

definition GetWriteRate :: "RegionInfo \<Rightarrow> real \<times> real" where
  "GetWriteRate r = (writeBytesRate r, writeKeysRate r)"

text \<open>\<^verbatim>\<open>regionItem.Less\<close>: the start key is less than the other's.\<close>

definition Less :: "RegionInfo \<Rightarrow> RegionInfo \<Rightarrow> bool" where
  "Less r other = (GetStartKey r < GetStartKey other)"

text \<open>\<^verbatim>\<open>regionItem.Contains\<close>: an empty end key is no upper bound.\<close>

definition Contains :: "RegionInfo \<Rightarrow> key \<Rightarrow> bool" where
  "Contains r k = (GetStartKey r \<le> k \<and> (length (GetEndKey r) = 0 \<or> k < GetEndKey r))"

subsection \<open>The ordered index\<close>

text \<open>
  Modelled from the spec: the B-tree package (\<^verbatim>\<open>pkg/btree\<close>) is not among the
  files at hand. The spec describes it as a balanced ordered map keyed by region start key,
  with ascending and descending traversal from an arbitrary anchor. It is modelled as the
  list of its items in ascending key order; a traversal hands the items of its range, in
  order, to an iterator that returns whether to go on.
\<close>

type_synonym btree = "RegionInfo list"

fun iterate :: "('a \<Rightarrow> 's \<Rightarrow> bool \<times> 's) \<Rightarrow> 'a list \<Rightarrow> 's \<Rightarrow> 's" where
  "iterate f [] s = s"
| "iterate f (x # xs) s = (case f x s of (True, s') \<Rightarrow> iterate f xs s' | (False, s') \<Rightarrow> s')"

definition AscendGreaterOrEqual ::
  "btree \<Rightarrow> RegionInfo \<Rightarrow> (RegionInfo \<Rightarrow> 's \<Rightarrow> bool \<times> 's) \<Rightarrow> 's \<Rightarrow> 's" where
  "AscendGreaterOrEqual t pivot f s = iterate f (filter (\<lambda>x. \<not> Less x pivot) t) s"

definition DescendLessOrEqual ::
  "btree \<Rightarrow> RegionInfo \<Rightarrow> (RegionInfo \<Rightarrow> 's \<Rightarrow> bool \<times> 's) \<Rightarrow> 's \<Rightarrow> 's" where
  "DescendLessOrEqual t pivot f s = iterate f (rev (filter (\<lambda>x. \<not> Less pivot x) t)) s"

definition Delete :: "RegionInfo \<Rightarrow> btree \<Rightarrow> btree" where
  "Delete item t = filter (\<lambda>x. Less x item \<or> Less item x) t"

fun ReplaceOrInsert :: "RegionInfo \<Rightarrow> btree \<Rightarrow> btree" where
  "ReplaceOrInsert item [] = [item]"
| "ReplaceOrInsert item (x # xs) =
     (if Less item x then item # x # xs
      else if Less x item then x # ReplaceOrInsert item xs
      else item # xs)"

subsection \<open>The tree and its aggregates\<close>

record regionTree =
  tree :: btree
  totalSize :: "64 word"
  totalWriteBytesRate :: real
  totalWriteKeysRate :: real

definition newRegionTree :: regionTree where
  "newRegionTree = \<lparr> tree = [], totalSize = 0, totalWriteBytesRate = 0, totalWriteKeysRate = 0 \<rparr>"

definition length_rt :: "regionTree \<Rightarrow> nat" where
  "length_rt t = length (tree t)"

text \<open>
  \<^verbatim>\<open>find\<close>: the first item met descending from the region's start key, kept only
  if it contains that key.
\<close>

definition find_rt :: "regionTree \<Rightarrow> RegionInfo \<Rightarrow> RegionInfo option" where
  "find_rt t region =
     (case DescendLessOrEqual (tree t) region (\<lambda>i result. (False, Some i)) None of
        None \<Rightarrow> None
      | Some result \<Rightarrow> if \<not> Contains result (GetStartKey region) then None else Some result)"

text \<open>
  \<^verbatim>\<open>getOverlaps\<close>: ascend from the item found (from the region itself when none is),
  stop at the first item whose start key is not below a non-empty end key of the region.
\<close>

definition getOverlaps :: "regionTree \<Rightarrow> RegionInfo \<Rightarrow> RegionInfo list" where
  "getOverlaps t region =
     (let result = (case find_rt t region of None \<Rightarrow> region | Some r \<Rightarrow> r)
      in AscendGreaterOrEqual (tree t) result
           (\<lambda>over overlaps.
              if length (GetEndKey region) > 0 \<and> GetEndKey region \<le> GetStartKey over
              then (False, overlaps)
              else (True, overlaps @ [over]))
           [])"

text \<open>
  \<^verbatim>\<open>update\<close>: add the region to the aggregates, delete every overlapping item and
  take it out of the aggregates, insert the region; the overlaps are returned.
\<close>

definition update_delete :: "RegionInfo \<Rightarrow> regionTree \<Rightarrow> regionTree" where
  "update_delete old t =
     t\<lparr> tree := Delete old (tree t),
        totalSize := totalSize t - approximateSize old,
        totalWriteBytesRate := totalWriteBytesRate t - fst (GetWriteRate old),
        totalWriteKeysRate := totalWriteKeysRate t - snd (GetWriteRate old) \<rparr>"

definition update :: "regionTree \<Rightarrow> RegionInfo \<Rightarrow> regionTree \<times> RegionInfo list" where
  "update t region =
     (let t1 = t\<lparr> totalSize := totalSize t + approximateSize region,
                  totalWriteBytesRate := totalWriteBytesRate t + fst (GetWriteRate region),
                  totalWriteKeysRate := totalWriteKeysRate t + snd (GetWriteRate region) \<rparr>;
          overlaps = getOverlaps t1 region;
          t2 = fold update_delete overlaps t1
      in (t2\<lparr> tree := ReplaceOrInsert region (tree t2) \<rparr>, overlaps))"

text \<open>
  \<^verbatim>\<open>remove\<close>: nothing on an empty tree, or when no item is found, or when the item
  found has another id; otherwise the aggregates are lowered by the values of the
  \<^emph>\<open>argument\<close> and the item found is deleted.
\<close>

definition remove_rt :: "regionTree \<Rightarrow> RegionInfo \<Rightarrow> regionTree" where
  "remove_rt t region =
     (if length_rt t = 0 then t
      else case find_rt t region of
        None \<Rightarrow> t
      | Some result \<Rightarrow>
          if GetID result \<noteq> GetID region then t
          else t\<lparr> totalSize := totalSize t - approximateSize region,
                  totalWriteBytesRate := totalWriteBytesRate t - fst (GetWriteRate region),
                  totalWriteKeysRate := totalWriteKeysRate t - snd (GetWriteRate region),
                  tree := Delete result (tree t) \<rparr>)"

definition TotalSize :: "regionTree \<Rightarrow> 64 word" where
  "TotalSize t = (if length_rt t = 0 then 0 else totalSize t)"

definition TotalWriteRate :: "regionTree \<Rightarrow> real \<times> real" where
  "TotalWriteRate t =
     (if length_rt t = 0 then (0, 0) else (totalWriteBytesRate t, totalWriteKeysRate t))"

subsection \<open>Sequences of calls\<close>

datatype call = Update RegionInfo | Remove RegionInfo

fun apply_call :: "call \<Rightarrow> regionTree \<Rightarrow> regionTree" where
  "apply_call (Update r) t = fst (update t r)"
| "apply_call (Remove r) t = remove_rt t r"

definition run_calls :: "call list \<Rightarrow> regionTree" where
  "run_calls cs = fold apply_call cs newRegionTree"

text \<open>The sums the aggregates are meant to equal.\<close>

definition sum_size :: "btree \<Rightarrow> 64 word" where
  "sum_size xs = sum_list (map approximateSize xs)"

definition sum_write_bytes :: "btree \<Rightarrow> real" where
  "sum_write_bytes xs = sum_list (map writeBytesRate xs)"

definition sum_write_keys :: "btree \<Rightarrow> real" where
  "sum_write_keys xs = sum_list (map writeKeysRate xs)"

definition aggregates_consistent :: "regionTree \<Rightarrow> bool" where
  "aggregates_consistent t =
     (totalSize t = sum_size (tree t) \<and>
      totalWriteBytesRate t = sum_write_bytes (tree t) \<and>
      totalWriteKeysRate t = sum_write_keys (tree t))"

text \<open>
  No two items overlap: of two items with different start keys, the one with the smaller
  start key ends (with a non-empty end key) at or before the other starts.
\<close>

definition overlap_free :: "btree \<Rightarrow> bool" where
  "overlap_free xs =
     (\<forall>a \<in> set xs. \<forall>b \<in> set xs.
        GetStartKey a < GetStartKey b \<longrightarrow>
          GetEndKey a \<noteq> [] \<and> GetEndKey a \<le> GetStartKey b)"

text \<open>A region whose key range is not inverted: the end key is empty or not below the start key.\<close>

definition range_ok :: "RegionInfo \<Rightarrow> bool" where
  "range_ok r = (GetEndKey r = [] \<or> GetStartKey r \<le> GetEndKey r)"

fun call_ok :: "call \<Rightarrow> bool" where
  "call_ok (Update r) = range_ok r"
| "call_ok (Remove r) = True"

definition mk_region :: "64 word \<Rightarrow> key \<Rightarrow> key \<Rightarrow> 64 word \<Rightarrow> RegionInfo" where
  "mk_region i s e sz =
     \<lparr> GetID = i, GetStartKey = s, GetEndKey = e, GetConfVer = 1, GetVersion = 1,
       approximateSize = sz, writeBytesRate = 0, writeKeysRate = 0 \<rparr>"

subsection \<open>Predicates used in the statements\<close>

text \<open>The order the index keeps: start keys strictly ascending.\<close>

definition key_sorted :: "btree \<Rightarrow> bool" where
  "key_sorted xs = sorted_wrt (\<lambda>a b. GetStartKey a < GetStartKey b) xs"

text \<open>One item lies wholly before another: it starts earlier and ends, with a non-empty end key, at or before the other's start.\<close>

definition before :: "RegionInfo \<Rightarrow> RegionInfo \<Rightarrow> bool" where
  "before a b = (GetStartKey a < GetStartKey b \<and> GetEndKey a \<noteq> [] \<and> GetEndKey a \<le> GetStartKey b)"

text \<open>The invariant kept by \<^verbatim>\<open>update\<close> and \<^verbatim>\<open>remove\<close> on regions whose range is not inverted.\<close>

definition tree_inv :: "btree \<Rightarrow> bool" where
  "tree_inv xs = (sorted_wrt before xs \<and> (\<forall>x \<in> set xs. range_ok x))"

text \<open>The items \<^verbatim>\<open>DescendLessOrEqual\<close> visits, in ascending order.\<close>

definition below :: "regionTree \<Rightarrow> RegionInfo \<Rightarrow> RegionInfo list" where
  "below t r = filter (\<lambda>x. GetStartKey x \<le> GetStartKey r) (tree t)"

text \<open>The test at which the iterator of \<^verbatim>\<open>getOverlaps\<close> stops.\<close>

definition stop_at :: "RegionInfo \<Rightarrow> RegionInfo \<Rightarrow> bool" where
  "stop_at r x = (GetEndKey r \<noteq> [] \<and> GetEndKey r \<le> GetStartKey x)"

text \<open>The item \<^verbatim>\<open>getOverlaps\<close> ascends from: the one found, or the query region itself.\<close>

definition start_item :: "regionTree \<Rightarrow> RegionInfo \<Rightarrow> RegionInfo" where
  "start_item t r = (case find_rt t r of None \<Rightarrow> r | Some e \<Rightarrow> e)"

text \<open>A region whose key range holds at least one key.\<close>

definition range_nonempty :: "RegionInfo \<Rightarrow> bool" where
  "range_nonempty r = (GetEndKey r = [] \<or> GetStartKey r < GetEndKey r)"


text \<open>Two half-open key ranges intersect: each starts below the other's end, an empty end key being no bound.\<close>

definition intersects :: "RegionInfo \<Rightarrow> RegionInfo \<Rightarrow> bool" where
  "intersects q e =
     ((GetEndKey q = [] \<or> GetStartKey e < GetEndKey q) \<and>
      (GetEndKey e = [] \<or> GetStartKey q < GetEndKey e))"

subsection \<open>Example regions\<close>

definition with_rates :: "RegionInfo \<Rightarrow> real \<Rightarrow> real \<Rightarrow> RegionInfo" where
  "with_rates r b k = r\<lparr> writeBytesRate := b, writeKeysRate := k \<rparr>"

definition ex_R1 :: RegionInfo where
  "ex_R1 = with_rates (mk_region 1 [] ''b'' 10) 4 2"

definition ex_R2 :: RegionInfo where
  "ex_R2 = with_rates (mk_region 2 ''b'' ''d'' 20) 8 3"

definition ex_R3 :: RegionInfo where
  "ex_R3 = with_rates (mk_region 3 ''d'' [] 30) 16 5"

definition ex_R4 :: RegionInfo where
  "ex_R4 = with_rates (mk_region 4 ''a'' ''e'' 40) 32 7"

text \<open>A second object for region 1: same id and key range, other size and write rates.\<close>

definition ex_R1_stale :: RegionInfo where
  "ex_R1_stale = with_rates (mk_region 1 [] ''b'' 3) 1 1"

text \<open>A region whose key range is inverted: it starts at \<open>c\<close> and ends at \<open>a\<close>.\<close>

definition ex_inverted :: RegionInfo where
  "ex_inverted = mk_region 5 ''c'' ''a'' 1"

definition ex_calls :: "call list" where
  "ex_calls = [Update ex_R1, Update ex_R2, Update ex_R3, Update ex_R4, Remove ex_R4, Update ex_R2]"

definition ex_tree :: regionTree where
  "ex_tree = run_calls [Update ex_R1, Update ex_R2, Update ex_R3]"

definition ex_query :: RegionInfo where
  "ex_query = mk_region 0 ''a'' ''c'' 0"

section \<open>Operator controller (server/schedule/operator\_controller.go)\<close>

text \<open>
  The controller is modelled sequentially: every public method runs as one step on the
  controller's state (the reader-writer lock is not modelled). Logging, metric counters, the
  per-kind operator counts and the fail points are left out. The clock is read once per call:
  \<open>now\<close> is the instant of the call, in nanoseconds.
\<close>

subsection \<open>Operators\<close>

text \<open>
  Modelled from the spec: the package \<^verbatim>\<open>server/schedule/operator\<close> is not among the
  files at hand. The spec gives the operator's fields, its status machine
  (\<open>CREATED \<rightarrow> STARTED \<rightarrow> {SUCCESS, TIMEOUT, REPLACED, CANCELED, EXPIRED}\<close>,
  \<^verbatim>\<open>Start\<close>, \<^verbatim>\<open>Cancel\<close> and \<^verbatim>\<open>Replace\<close> being single-shot transitions
  that return false when the state does not allow them), the step variants and what
  \<^verbatim>\<open>Check\<close>, \<^verbatim>\<open>CheckTimeout\<close> and \<^verbatim>\<open>CheckExpired\<close> do. What a step
  computes from a region (\<^verbatim>\<open>IsFinish\<close>, \<^verbatim>\<open>CheckInProgress\<close>, its influence) is
  taken as a parameter, in \<open>Env\<close> below.
\<close>

datatype OpStatus = CREATED | STARTED | SUCCESS | CANCELED | REPLACED | EXPIRED | TIMEOUT

fun IsEndStatus :: "OpStatus \<Rightarrow> bool" where
  "IsEndStatus CREATED = False"
| "IsEndStatus STARTED = False"
| "IsEndStatus st = True"

datatype PriorityLevel = LowPriority | MediumPriority | HighPriority | UrgentPriority

fun level :: "PriorityLevel \<Rightarrow> nat" where
  "level LowPriority = 0"
| "level MediumPriority = 1"
| "level HighPriority = 2"
| "level UrgentPriority = 3"

datatype OpKindFlag =
  OpLeader | OpRegion | OpSplit | OpAdmin | OpHotRegion | OpAdjacent | OpReplica | OpBalance
  | OpMerge | OpRange

datatype OpStep =
  TransferLeader "64 word"
  | AddPeer "64 word" "64 word"
  | AddLearner "64 word" "64 word"
  | PromoteLearner "64 word" "64 word"
  | DemoteFollower "64 word" "64 word"
  | RemovePeer "64 word"
  | MergeRegion "64 word" bool
  | SplitRegion nat "key list"
  | ChangePeerV2Enter "(64 word \<times> 64 word) list"
  | ChangePeerV2Leave

record Operator =
  Desc :: string
  RegionID :: "64 word"
  Kind :: "OpKindFlag set"
  GetPriorityLevel :: PriorityLevel
  EpochConfVer :: "64 word"
  EpochVersion :: "64 word"
  Status :: OpStatus
  steps :: "OpStep list"
  currentStep :: nat
  GetCreateTime :: int
  GetStartTime :: int

record OpHistory =
  FinishTime :: int
  From :: "64 word"
  To :: "64 word"

datatype StoreLimitType = AddPeerLimit | RemovePeerLimit

record StoreInfluence =
  addPeerCost :: "64 word"
  removePeerCost :: "64 word"

fun GetStepCost :: "StoreInfluence \<Rightarrow> StoreLimitType \<Rightarrow> 64 word" where
  "GetStepCost si AddPeerLimit = addPeerCost si"
| "GetStepCost si RemovePeerLimit = removePeerCost si"

text \<open>
  An \<^verbatim>\<open>OpInfluence\<close> holds a map from store id to store influence; it is kept as the
  list of its entries, in the order in which the map is ranged over.
\<close>

type_synonym OpInfluence = "(64 word \<times> StoreInfluence) list"

text \<open>
  What the controller reads from its collaborators during one call: the clock, the cluster
  snapshot and its options, and the operator package's functions of a step or an operator
  and a region. \<open>CheckInProgress\<close> is true when the source's function returns an error.
\<close>

record Env =
  now :: int
  GetRegion :: "64 word \<Rightarrow> RegionInfo option"
  GetStore :: "64 word \<Rightarrow> bool"
  GetSchedulerMaxWaitingOperator :: "64 word"
  GetStoreLimitByType :: "64 word \<Rightarrow> StoreLimitType \<Rightarrow> real"
  limitCapacity :: "StoreLimitType \<Rightarrow> 64 word"
  IsFinish :: "OpStep \<Rightarrow> RegionInfo \<Rightarrow> bool"
  CheckInProgress :: "OpStep \<Rightarrow> RegionInfo \<Rightarrow> bool"
  ConfVerChanged :: "Operator \<Rightarrow> RegionInfo \<Rightarrow> 64 word"
  TotalInfluence :: "Operator \<Rightarrow> RegionInfo \<Rightarrow> OpInfluence \<Rightarrow> OpInfluence"
  History :: "Operator \<Rightarrow> OpHistory list"
  OperatorExpireTime :: int
  timeoutOf :: "Operator \<Rightarrow> int"

definition Cancel :: "Operator \<Rightarrow> bool \<times> Operator" where
  "Cancel op = (if IsEndStatus (Status op) then (False, op) else (True, op\<lparr>Status := CANCELED\<rparr>))"

definition Replace :: "Operator \<Rightarrow> bool \<times> Operator" where
  "Replace op = (if Status op = STARTED then (True, op\<lparr>Status := REPLACED\<rparr>) else (False, op))"

definition Start :: "Env \<Rightarrow> Operator \<Rightarrow> bool \<times> Operator" where
  "Start env op =
     (if Status op = CREATED then (True, op\<lparr>Status := STARTED, GetStartTime := now env\<rparr>)
      else (False, op))"

definition CheckExpired :: "Env \<Rightarrow> Operator \<Rightarrow> bool \<times> Operator" where
  "CheckExpired env op =
     (if Status op = CREATED \<and> now env - GetCreateTime op > OperatorExpireTime env
      then (True, op\<lparr>Status := EXPIRED\<rparr>)
      else (Status op = EXPIRED, op))"

definition CheckSuccess :: "Operator \<Rightarrow> Operator" where
  "CheckSuccess op =
     (if Status op = STARTED \<and> length (steps op) \<le> currentStep op
      then op\<lparr>Status := SUCCESS\<rparr> else op)"

definition CheckTimeout :: "Env \<Rightarrow> Operator \<Rightarrow> Operator" where
  "CheckTimeout env op =
     (let op1 = CheckSuccess op
      in if Status op1 = STARTED \<and> now env - GetStartTime op1 > timeoutOf env op1
         then op1\<lparr>Status := TIMEOUT\<rparr> else op1)"

text \<open>
  \<^verbatim>\<open>Check\<close>: nothing on an operator that has ended; otherwise \<^verbatim>\<open>IsFinish\<close> is
  applied to the current step, a finished step advances the index, and the success and timeout
  checks follow. The step returned is the step to run next, if any.
\<close>

definition Check :: "Env \<Rightarrow> RegionInfo \<Rightarrow> Operator \<Rightarrow> OpStep option \<times> Operator" where
  "Check env region op =
     (if IsEndStatus (Status op) then (None, op)
      else case drop (currentStep op) (steps op) of
        [] \<Rightarrow> (None, CheckTimeout env op)
      | st # rest \<Rightarrow>
          if IsFinish env st region
          then (case rest of
                  [] \<Rightarrow> (None, CheckTimeout env (op\<lparr>currentStep := currentStep op + 1\<rparr>))
                | nxt # _ \<Rightarrow> (Some nxt, CheckTimeout env (op\<lparr>currentStep := currentStep op + 1\<rparr>)))
          else (Some st, CheckTimeout env op))"

subsection \<open>Store limits, caches and the waiting bucket\<close>

text \<open>
  Modelled from the spec: the packages \<^verbatim>\<open>storelimit\<close> and \<^verbatim>\<open>cache\<close> and the
  waiting bucket (\<^verbatim>\<open>RandBuckets\<close>) are not among the files at hand. A limiter holds a
  rate and its available tokens, and \<^verbatim>\<open>Take(n)\<close> succeeds only if \<open>available \<ge> n\<close>;
  resetting a limiter gives a fresh one of the new rate. A TTL cache maps an id to a value and
  the instant at which the value expires. The waiting bucket has one FIFO band per priority;
  \<^verbatim>\<open>PutOperator\<close> appends to the band of the operator's priority and
  \<^verbatim>\<open>GetOperator\<close> takes, from a band chosen at random among the non-empty ones, the
  first operator, and with it the next one when the first is a merge operator. The random
  draws are an input: the list \<open>rand\<close> of the state.
\<close>

record StoreLimit =
  Rate :: real
  Available :: "64 word"

type_synonym opref = nat

record OperatorController =
  heap :: "opref \<Rightarrow> Operator"
  operators :: "64 word \<rightharpoonup> opref"
  wop :: "PriorityLevel \<Rightarrow> opref list"
  wopStatus :: "string \<Rightarrow> 64 word"
  opRecords :: "64 word \<rightharpoonup> (opref \<times> OpStatus \<times> int)"
  fastOperators :: "64 word \<rightharpoonup> (opref \<times> int)"
  histories :: "OpHistory list"
  opNotifierQueue :: "(opref \<times> int) list"
  storeLimit :: "64 word \<Rightarrow> StoreLimitType \<rightharpoonup> StoreLimit"
  rand :: "nat list"
  sent :: "(64 word \<times> OpStep \<times> string) list"
  takes :: "(64 word \<times> StoreLimitType \<times> 64 word) list"
  promotions :: nat

text \<open>
  The operators are Go pointers: \<open>heap\<close> maps a reference to the operator it points to.
  The last three fields only record what was done: the commands handed to the heartbeat
  streams, the \<^verbatim>\<open>Take\<close> calls made on store limiters, and how often
  \<^verbatim>\<open>PromoteWaitingOperator\<close> was entered.
\<close>

definition historyKeepTime :: int where "historyKeepTime = 5 * 60 * 1000000000"
definition slowNotifyInterval :: int where "slowNotifyInterval = 5 * 1000000000"
definition fastNotifyInterval :: int where "fastNotifyInterval = 2 * 1000000000"
definition StoreBalanceBaseTime :: real where "StoreBalanceBaseTime = 60"
definition FastOperatorFinishTime :: int where "FastOperatorFinishTime = 10 * 1000000000"
definition operatorStatusRemainTime :: int where "operatorStatusRemainTime = 10 * 60 * 1000000000"

definition DispatchFromHeartBeat :: string where "DispatchFromHeartBeat = ''heartbeat''"
definition DispatchFromNotifierQueue :: string where "DispatchFromNotifierQueue = ''active push''"
definition DispatchFromCreate :: string where "DispatchFromCreate = ''create''"

definition NewOperatorController :: "(opref \<Rightarrow> Operator) \<Rightarrow> OperatorController" where
  "NewOperatorController h =
     \<lparr> heap = h, operators = Map.empty, wop = (\<lambda>_. []), wopStatus = (\<lambda>_. 0),
       opRecords = Map.empty, fastOperators = Map.empty, histories = [], opNotifierQueue = [],
       storeLimit = (\<lambda>_ _. None), rand = [], sent = [], takes = [], promotions = 0 \<rparr>"

definition PutOperator :: "opref \<Rightarrow> OperatorController \<Rightarrow> OperatorController" where
  "PutOperator op s =
     (let p = GetPriorityLevel (heap s op)
      in s\<lparr> wop := (wop s)(p := wop s p @ [op]) \<rparr>)"

definition bands :: "PriorityLevel list" where
  "bands = [LowPriority, MediumPriority, HighPriority, UrgentPriority]"

definition GetOperator :: "OperatorController \<Rightarrow> opref list option \<times> OperatorController" where
  "GetOperator s =
     (let r = (case rand s of [] \<Rightarrow> 0 | x # _ \<Rightarrow> x);
          s1 = s\<lparr> rand := tl (rand s) \<rparr>;
          nonempty = filter (\<lambda>p. wop s p \<noteq> []) bands
      in if nonempty = [] then (None, s1)
         else let p = nonempty ! (r mod length nonempty)
              in case wop s p of
                   [] \<Rightarrow> (None, s1)
                 | x # rest \<Rightarrow>
                     if OpMerge \<in> Kind (heap s x)
                     then (case rest of
                             [] \<Rightarrow> (Some [x], s1\<lparr> wop := (wop s)(p := []) \<rparr>)
                           | y # rest' \<Rightarrow> (Some [x, y], s1\<lparr> wop := (wop s)(p := rest') \<rparr>))
                     else (Some [x], s1\<lparr> wop := (wop s)(p := rest) \<rparr>))"

definition ListOperator :: "OperatorController \<Rightarrow> opref list" where
  "ListOperator s = concat (map (wop s) bands)"

definition ResetStoreLimit ::
  "Env \<Rightarrow> 64 word \<Rightarrow> StoreLimitType \<Rightarrow> real \<Rightarrow> OperatorController \<Rightarrow> OperatorController" where
  "ResetStoreLimit env storeID ty ratePerSec s =
     s\<lparr> storeLimit := (storeLimit s)
          (storeID := (storeLimit s storeID)
             (ty \<mapsto> \<lparr> Rate = ratePerSec, Available = limitCapacity env ty \<rparr>)) \<rparr>"

definition Take ::
  "64 word \<Rightarrow> StoreLimitType \<Rightarrow> 64 word \<Rightarrow> OperatorController \<Rightarrow> OperatorController" where
  "Take storeID ty n s =
     (case storeLimit s storeID ty of
        None \<Rightarrow> s
      | Some l \<Rightarrow>
          s\<lparr> storeLimit := (storeLimit s)
               (storeID := (storeLimit s storeID)
                  (ty \<mapsto> (if sint n \<le> sint (Available l)
                            then l\<lparr> Available := Available l - n \<rparr> else l))),
             takes := takes s @ [(storeID, ty, n)] \<rparr>)"

subsection \<open>The controller's functions\<close>

definition setOp :: "opref \<Rightarrow> Operator \<Rightarrow> OperatorController \<Rightarrow> OperatorController" where
  "setOp op v s = s\<lparr> heap := (heap s)(op := v) \<rparr>"

text \<open>\<^verbatim>\<open>_ = op.Cancel()\<close>, on the operator a reference points to.\<close>

definition cancelOp :: "opref \<Rightarrow> OperatorController \<Rightarrow> OperatorController" where
  "cancelOp op s = setOp op (snd (Cancel (heap s op))) s"

text \<open>
  \<^verbatim>\<open>opRecords.Put\<close>: the record holds the operator and its status at that moment, under
  the operator's region id.
\<close>

definition opRecords_Put :: "Env \<Rightarrow> opref \<Rightarrow> OperatorController \<Rightarrow> OperatorController" where
  "opRecords_Put env op s =
     s\<lparr> opRecords := (opRecords s)
          (RegionID (heap s op) \<mapsto> (op, Status (heap s op), now env + operatorStatusRemainTime)) \<rparr>"

text \<open>
  \<^verbatim>\<open>buryOperator\<close>: an operator that has not ended is cancelled first; then the record
  is put.
\<close>

definition buryOperator :: "Env \<Rightarrow> opref \<Rightarrow> OperatorController \<Rightarrow> OperatorController" where
  "buryOperator env op s =
     (let st = Status (heap s op);
          s1 = (if \<not> IsEndStatus st then cancelOp op s else s)
      in opRecords_Put env op s1)"

definition removeOperatorLocked ::
  "opref \<Rightarrow> OperatorController \<Rightarrow> bool \<times> OperatorController" where
  "removeOperatorLocked op s =
     (let regionID = RegionID (heap s op)
      in if operators s regionID = Some op
         then (True, s\<lparr> operators := (operators s)(regionID := None) \<rparr>)
         else (False, s))"

definition RemoveOperator ::
  "Env \<Rightarrow> opref \<Rightarrow> OperatorController \<Rightarrow> bool \<times> OperatorController" where
  "RemoveOperator env op s =
     (let (removed, s1) = removeOperatorLocked op s
      in if removed then (removed, buryOperator env op (cancelOp op s1)) else (removed, s1))"

definition isHigherPriorityOperator :: "Operator \<Rightarrow> Operator \<Rightarrow> bool" where
  "isHigherPriorityOperator new old = (level (GetPriorityLevel new) > level (GetPriorityLevel old))"

text \<open>
  \<^verbatim>\<open>checkAddOperator\<close>, first loop: the tests made on one operator, in the source's
  order.
\<close>

definition checkOne :: "Env \<Rightarrow> OperatorController \<Rightarrow> opref \<Rightarrow> bool" where
  "checkOne env s op =
     (case GetRegion env (RegionID (heap s op)) of
        None \<Rightarrow> False
      | Some region \<Rightarrow>
          if GetVersion region \<noteq> EpochVersion (heap s op) \<or>
             GetConfVer region \<noteq> EpochConfVer (heap s op) then False
          else if (case operators s (RegionID (heap s op)) of
                     None \<Rightarrow> False
                   | Some old \<Rightarrow> \<not> isHigherPriorityOperator (heap s op) (heap s old)) then False
          else if Status (heap s op) \<noteq> CREATED then False
          else if wopStatus s (Desc (heap s op)) \<ge> GetSchedulerMaxWaitingOperator env then False
          else True)"

text \<open>Second loop: \<^verbatim>\<open>CheckExpired\<close> on every operator; it may move one to EXPIRED.\<close>

fun checkExpiredAll ::
  "Env \<Rightarrow> opref list \<Rightarrow> bool \<Rightarrow> OperatorController \<Rightarrow> bool \<times> OperatorController" where
  "checkExpiredAll env [] expired s = (expired, s)"
| "checkExpiredAll env (op # ops) expired s =
     (let (e, v) = CheckExpired env (heap s op)
      in checkExpiredAll env ops (expired \<or> e) (setOp op v s))"

definition checkAddOperator ::
  "Env \<Rightarrow> opref list \<Rightarrow> OperatorController \<Rightarrow> bool \<times> OperatorController" where
  "checkAddOperator env ops s =
     (if \<not> list_all (checkOne env s) ops then (False, s)
      else let (expired, s1) = checkExpiredAll env ops False s in (\<not> expired, s1))"

text \<open>\<^verbatim>\<open>NewTotalOpInfluence\<close>: an operator whose region is not found adds nothing.\<close>

definition NewTotalOpInfluence :: "Env \<Rightarrow> OperatorController \<Rightarrow> opref list \<Rightarrow> OpInfluence" where
  "NewTotalOpInfluence env s ops =
     fold (\<lambda>op influence.
             case GetRegion env (RegionID (heap s op)) of
               None \<Rightarrow> influence
             | Some region \<Rightarrow> TotalInfluence env (heap s op) region influence)
          ops []"

definition limitTypes :: "StoreLimitType list" where
  "limitTypes = [AddPeerLimit, RemovePeerLimit]"

text \<open>
  \<^verbatim>\<open>getOrCreateStoreLimit\<close>: no limiter for a store that is not found; otherwise the
  limiter is reset when it is missing and when its rate is not the configured one.
\<close>

definition getOrCreateStoreLimit ::
  "Env \<Rightarrow> 64 word \<Rightarrow> StoreLimitType \<Rightarrow> OperatorController
     \<Rightarrow> StoreLimit option \<times> OperatorController" where
  "getOrCreateStoreLimit env storeID limitType s =
     (let ratePerSec = GetStoreLimitByType env storeID limitType / StoreBalanceBaseTime
      in if \<not> GetStore env storeID then (None, s)
         else let s1 = (if storeLimit s storeID limitType = None
                        then ResetStoreLimit env storeID limitType ratePerSec s else s);
                  s2 = (case storeLimit s1 storeID limitType of
                          None \<Rightarrow> s1
                        | Some l \<Rightarrow> if ratePerSec \<noteq> Rate l
                                    then ResetStoreLimit env storeID limitType ratePerSec s1 else s1)
              in (storeLimit s2 storeID limitType, s2))"

text \<open>
  \<^verbatim>\<open>exceedStoreLimitLocked\<close>: the two nested loops; \<open>None\<close> stands for going on with
  the next store or limit kind, \<open>Some b\<close> for \<^verbatim>\<open>return b\<close>.
\<close>

fun exceedTypes ::
  "Env \<Rightarrow> 64 word \<Rightarrow> StoreInfluence \<Rightarrow> StoreLimitType list \<Rightarrow> OperatorController
     \<Rightarrow> bool option \<times> OperatorController" where
  "exceedTypes env storeID si [] s = (None, s)"
| "exceedTypes env storeID si (v # vs) s =
     (let stepCost = GetStepCost si v
      in if stepCost = 0 then exceedTypes env storeID si vs s
         else let (limiter, s1) = getOrCreateStoreLimit env storeID v s
              in case limiter of
                   None \<Rightarrow> (Some False, s1)
                 | Some l \<Rightarrow>
                     if sint (Available l) < sint stepCost then (Some True, s1)
                     else exceedTypes env storeID si vs s1)"

fun exceedStores ::
  "Env \<Rightarrow> OpInfluence \<Rightarrow> OperatorController \<Rightarrow> bool \<times> OperatorController" where
  "exceedStores env [] s = (False, s)"
| "exceedStores env ((storeID, si) # rest) s =
     (case exceedTypes env storeID si limitTypes s of
        (Some b, s1) \<Rightarrow> (b, s1)
      | (None, s1) \<Rightarrow> exceedStores env rest s1)"

definition exceedStoreLimitLocked ::
  "Env \<Rightarrow> opref list \<Rightarrow> OperatorController \<Rightarrow> bool \<times> OperatorController" where
  "exceedStoreLimitLocked env ops s = exceedStores env (NewTotalOpInfluence env s ops) s"

text \<open>
  \<^verbatim>\<open>SendScheduleCommand\<close> hands a command made from the region and the step to the
  heartbeat streams; the model records the call, not the wire message.
\<close>

definition SendScheduleCommand ::
  "RegionInfo \<Rightarrow> OpStep \<Rightarrow> string \<Rightarrow> OperatorController \<Rightarrow> OperatorController" where
  "SendScheduleCommand region step source s = s\<lparr> sent := sent s @ [(GetID region, step, source)] \<rparr>"

fun isFastStep :: "OpStep \<Rightarrow> bool" where
  "isFastStep (TransferLeader _) = True"
| "isFastStep (PromoteLearner _ _) = True"
| "isFastStep (DemoteFollower _ _) = True"
| "isFastStep (ChangePeerV2Enter _) = True"
| "isFastStep ChangePeerV2Leave = True"
| "isFastStep _ = False"

definition getNextPushOperatorTime :: "OpStep option \<Rightarrow> int \<Rightarrow> int" where
  "getNextPushOperatorTime step t =
     (case step of
        Some st \<Rightarrow> if isFastStep st then t + fastNotifyInterval else t + slowNotifyInterval
      | None \<Rightarrow> t + slowNotifyInterval)"

text \<open>
  The limiter loops of \<^verbatim>\<open>addOperatorLocked\<close>: a store that is not found ends the
  function with false; a missing limiter and a zero cost are skipped.
\<close>

fun takeTypes ::
  "64 word \<Rightarrow> StoreInfluence \<Rightarrow> StoreLimitType list \<Rightarrow> OperatorController \<Rightarrow> OperatorController" where
  "takeTypes storeID si [] s = s"
| "takeTypes storeID si (v # vs) s =
     (if storeLimit s storeID v = None then takeTypes storeID si vs s
      else let stepCost = GetStepCost si v
           in if stepCost = 0 then takeTypes storeID si vs s
              else takeTypes storeID si vs (Take storeID v stepCost s))"

fun takeStores :: "Env \<Rightarrow> OpInfluence \<Rightarrow> OperatorController \<Rightarrow> bool \<times> OperatorController" where
  "takeStores env [] s = (True, s)"
| "takeStores env ((storeID, si) # rest) s =
     (if \<not> GetStore env storeID then (False, s)
      else takeStores env rest (takeTypes storeID si limitTypes s))"

text \<open>
  \<^verbatim>\<open>addOperatorLocked\<close>: an operator already running for the region is removed,
  \<^verbatim>\<open>Replace\<close>d and buried; the new one is started and recorded, the limiters are
  charged, the first command is sent and the timer entry is pushed.
\<close>

definition replaceOld :: "Env \<Rightarrow> opref \<Rightarrow> OperatorController \<Rightarrow> OperatorController" where
  "replaceOld env old s =
     (let s1 = snd (removeOperatorLocked old s);
          s2 = setOp old (snd (Replace (heap s1 old))) s1
      in buryOperator env old s2)"

definition addOperatorLocked ::
  "Env \<Rightarrow> opref \<Rightarrow> OperatorController \<Rightarrow> bool \<times> OperatorController" where
  "addOperatorLocked env op s =
     (let regionID = RegionID (heap s op);
          s1 = (case operators s regionID of None \<Rightarrow> s | Some old \<Rightarrow> replaceOld env old s);
          (started, v) = Start env (heap s1 op)
      in if \<not> started then (False, s1)
         else let s2 = (setOp op v s1)\<lparr> operators := (operators s1)(regionID \<mapsto> op) \<rparr>;
                  opInfluence = NewTotalOpInfluence env s2 [op];
                  (found, s3) = takeStores env opInfluence s2
              in if \<not> found then (False, s3)
                 else let (step, s4) =
                            (case GetRegion env (RegionID (heap s3 op)) of
                               None \<Rightarrow> (None, s3)
                             | Some region \<Rightarrow>
                                 (let (step, v') = Check env region (heap s3 op);
                                      s' = setOp op v' s3
                                  in case step of
                                       None \<Rightarrow> (None, s')
                                     | Some st \<Rightarrow>
                                         (Some st, SendScheduleCommand region st DispatchFromCreate s')))
                      in (True, s4\<lparr> opNotifierQueue :=
                                     (op, getNextPushOperatorTime step (now env)) # opNotifierQueue s4 \<rparr>))"

text \<open>The loop over a unit that ends at the first operator that cannot be added.\<close>

fun addAll :: "Env \<Rightarrow> opref list \<Rightarrow> OperatorController \<Rightarrow> bool \<times> OperatorController" where
  "addAll env [] s = (True, s)"
| "addAll env (op # ops) s =
     (let (ok, s1) = addOperatorLocked env op s
      in if \<not> ok then (False, s1) else addAll env ops s1)"

text \<open>\<^verbatim>\<open>_ = op.Cancel(); oc.buryOperator(op)\<close> for every operator of a unit.\<close>

fun cancelAndBury :: "Env \<Rightarrow> opref list \<Rightarrow> OperatorController \<Rightarrow> OperatorController" where
  "cancelAndBury env [] s = s"
| "cancelAndBury env (op # ops) s = cancelAndBury env ops (buryOperator env op (cancelOp op s))"

text \<open>
  \<^verbatim>\<open>AddOperator\<close>: the unit is cancelled and buried when it exceeds a store limit or
  fails \<^verbatim>\<open>checkAddOperator\<close> (which is not called in the first case); otherwise its
  operators are added one by one.
\<close>

definition AddOperator ::
  "Env \<Rightarrow> opref list \<Rightarrow> OperatorController \<Rightarrow> bool \<times> OperatorController" where
  "AddOperator env ops s =
     (let (exceed, s1) = exceedStoreLimitLocked env ops s
      in if exceed then (False, cancelAndBury env ops s1)
         else let (ok, s2) = checkAddOperator env ops s1
              in if \<not> ok then (False, cancelAndBury env ops s2)
                 else addAll env ops s2)"

definition decWaiting :: "opref list \<Rightarrow> OperatorController \<Rightarrow> OperatorController" where
  "decWaiting ops s =
     (case ops of
        [] \<Rightarrow> s
      | op # _ \<Rightarrow> s\<lparr> wopStatus := (wopStatus s)(Desc (heap s op) := wopStatus s (Desc (heap s op)) - 1) \<rparr>)"

definition waiting :: "OperatorController \<Rightarrow> nat" where
  "waiting s = length (ListOperator s)"

text \<open>
  \<^verbatim>\<open>PromoteWaitingOperator\<close>, first loop: units are pulled from the waiting bucket until
  it is empty or a unit neither exceeds a store limit nor fails
  \<^verbatim>\<open>checkAddOperator\<close>; a unit that does is cancelled and buried, the waiting count of
  its first operator's description is lowered, and the loop goes on. (A unit is never empty,
  so \<open>decWaiting\<close> always finds \<^verbatim>\<open>ops[0]\<close>.)
\<close>

function promoteLoop :: "Env \<Rightarrow> OperatorController \<Rightarrow> opref list option \<times> OperatorController" where
  "promoteLoop env s =
     (case GetOperator s of
        (None, s1) \<Rightarrow> (None, s1)
      | (Some ops, s1) \<Rightarrow>
          (let (exceed, s2) = exceedStoreLimitLocked env ops s1
           in if exceed then promoteLoop env (decWaiting ops (cancelAndBury env ops s2))
              else let (ok, s3) = checkAddOperator env ops s2
                   in if \<not> ok then promoteLoop env (decWaiting ops (cancelAndBury env ops s3))
                      else (Some ops, decWaiting ops s3)))"
  by pat_completeness auto

text \<open>
  The loop ends: every round takes at least one operator out of the waiting bucket and
  nothing in a round puts one in.
\<close>

lemma waiting_eq:
  "waiting s = length (wop s LowPriority) + length (wop s MediumPriority)
     + length (wop s HighPriority) + length (wop s UrgentPriority)"
  by (simp add: waiting_def ListOperator_def bands_def)

lemma wop_setOp [simp]: "wop (setOp op v s) = wop s"
  by (simp add: setOp_def)

lemma wop_cancelOp [simp]: "wop (cancelOp op s) = wop s"
  by (simp add: cancelOp_def)

lemma wop_buryOperator [simp]: "wop (buryOperator env op s) = wop s"
  by (simp add: buryOperator_def opRecords_Put_def Let_def)

lemma wop_cancelAndBury [simp]: "wop (cancelAndBury env ops s) = wop s"
  by (induction ops arbitrary: s) simp_all

lemma wop_decWaiting [simp]: "wop (decWaiting ops s) = wop s"
  by (simp add: decWaiting_def split: list.splits)

lemma wop_checkExpiredAll [simp]: "wop (snd (checkExpiredAll env ops e s)) = wop s"
  by (induction ops arbitrary: e s) (simp_all add: split_beta Let_def)

lemma wop_checkAddOperator [simp]: "wop (snd (checkAddOperator env ops s)) = wop s"
  by (simp add: checkAddOperator_def split_beta Let_def)

lemma wop_ResetStoreLimit [simp]: "wop (ResetStoreLimit env i ty r s) = wop s"
  by (simp add: ResetStoreLimit_def)

lemma wop_getOrCreateStoreLimit [simp]: "wop (snd (getOrCreateStoreLimit env i ty s)) = wop s"
  by (simp add: getOrCreateStoreLimit_def Let_def split: option.splits)

lemma wop_exceedTypes [simp]: "wop (snd (exceedTypes env i si vs s)) = wop s"
  by (induction vs arbitrary: s) (simp_all add: Let_def split_beta split: option.splits)

lemma wop_exceedStores [simp]: "wop (snd (exceedStores env infl s)) = wop s"
proof (induction infl arbitrary: s)
  case Nil
  then show ?case by simp
next
  case (Cons a infl)
  obtain i si where a: "a = (i, si)" by (cases a)
  obtain r s1 where e: "exceedTypes env i si limitTypes s = (r, s1)" by fastforce
  then have "wop s1 = wop s" using wop_exceedTypes[of env i si limitTypes s] by simp
  with Cons a e show ?case by (cases r) simp_all
qed

lemma wop_exceedStoreLimitLocked [simp]: "wop (snd (exceedStoreLimitLocked env ops s)) = wop s"
  by (simp add: exceedStoreLimitLocked_def)

lemma GetOperator_waiting:
  assumes "GetOperator s = (Some ops, s1)"
  shows "waiting s1 < waiting s"
proof -
  let ?ne = "filter (\<lambda>p. wop s p \<noteq> []) bands"
  let ?r = "case rand s of [] \<Rightarrow> 0 | x # _ \<Rightarrow> x"
  let ?p = "?ne ! (?r mod length ?ne)"
  from assms have ne: "?ne \<noteq> []" by (auto simp: GetOperator_def Let_def)
  then have "?r mod length ?ne < length ?ne" by simp
  then have "?p \<in> set ?ne" by (rule nth_mem)
  then have pne: "wop s ?p \<noteq> []" by simp
  then obtain x rest where xr: "wop s ?p = x # rest" by (cases "wop s ?p") auto
  from assms ne xr have "wop s1 = (wop s)(?p := rest) \<or> (\<exists>y rest'. rest = y # rest' \<and> wop s1 = (wop s)(?p := rest'))
       \<or> (rest = [] \<and> wop s1 = (wop s)(?p := []))"
    by (auto simp: GetOperator_def Let_def split: if_splits list.splits)
  then obtain l where l: "wop s1 = (wop s)(?p := l)" "length l < length (wop s ?p)"
    using xr by auto
  show ?thesis
    unfolding waiting_eq l(1) using l(2) by (cases ?p) simp_all
qed

lemma waiting_cong: "wop s' = wop s \<Longrightarrow> waiting s' = waiting s"
  by (simp add: waiting_def ListOperator_def)

lemma promoteLoop_decreases_exceed:
  assumes "(Some ops, s1) = GetOperator s" "(e, s2) = exceedStoreLimitLocked env ops s1"
  shows "waiting (decWaiting ops (cancelAndBury env ops s2)) < waiting s"
proof -
  from assms(2) have "wop s2 = wop s1"
    using wop_exceedStoreLimitLocked[of env ops s1] by (metis snd_conv)
  then have "waiting (decWaiting ops (cancelAndBury env ops s2)) = waiting s1"
    by (intro waiting_cong) simp
  with GetOperator_waiting[OF assms(1)[symmetric]] show ?thesis by simp
qed

lemma promoteLoop_decreases_check:
  assumes "(Some ops, s1) = GetOperator s" "(e, s2) = exceedStoreLimitLocked env ops s1"
    "(ok, s3) = checkAddOperator env ops s2"
  shows "waiting (decWaiting ops (cancelAndBury env ops s3)) < waiting s"
proof -
  from assms(2) have "wop s2 = wop s1"
    using wop_exceedStoreLimitLocked[of env ops s1] by (metis snd_conv)
  moreover from assms(3) have "wop s3 = wop s2"
    using wop_checkAddOperator[of env ops s2] by (metis snd_conv)
  ultimately have "waiting (decWaiting ops (cancelAndBury env ops s3)) = waiting s1"
    by (intro waiting_cong) simp
  with GetOperator_waiting[OF assms(1)[symmetric]] show ?thesis by simp
qed

termination promoteLoop
proof (relation "measure (\<lambda>(env, s). waiting s)", goal_cases)
  case 1
  show ?case by simp
next
  case (2 env s x y x2 xa xb ya)
  then show ?case using promoteLoop_decreases_exceed[of x2 y s True ya env] by simp
next
  case (3 env s x y x2 xa xb ya xc xd yb)
  then show ?case
    using promoteLoop_decreases_check[of x2 y s xb ya env xd yb] by simp
qed

declare promoteLoop.simps [simp del]

datatype panic = IndexOutOfRange | NilStep

text \<open>
  \<^verbatim>\<open>PromoteWaitingOperator\<close>: the unit that left the first loop is added operator by
  operator, up to the first that cannot be added.
\<close>

definition PromoteWaitingOperator :: "Env \<Rightarrow> OperatorController \<Rightarrow> OperatorController" where
  "PromoteWaitingOperator env s =
     (case promoteLoop env (s\<lparr> promotions := promotions s + 1 \<rparr>) of
        (None, s1) \<Rightarrow> s1
      | (Some ops, s1) \<Rightarrow> snd (addAll env ops s1))"

text \<open>
  \<^verbatim>\<open>AddWaitingOperator\<close>, the admission loop. The result says whether the loop ran to
  its end (\<open>True\<close>) or left through one of its \<^verbatim>\<open>return added\<close> statements, and gives
  \<^verbatim>\<open>added\<close> and the state at that point. A merge operator takes its successor with it;
  \<^verbatim>\<open>checkAddOperator\<close> is called on the first operator of a unit only.
\<close>

definition incWaiting :: "string \<Rightarrow> OperatorController \<Rightarrow> OperatorController" where
  "incWaiting desc s = s\<lparr> wopStatus := (wopStatus s)(desc := wopStatus s desc + 1) \<rparr>"

fun addWaitingLoop ::
  "Env \<Rightarrow> opref list \<Rightarrow> int \<Rightarrow> OperatorController \<Rightarrow> bool \<times> int \<times> OperatorController" where
  "addWaitingLoop env [] added s = (True, added, s)"
| "addWaitingLoop env (op # rest) added s =
     (let desc = Desc (heap s op)
      in if OpMerge \<in> Kind (heap s op)
         then (case rest of
                 [] \<Rightarrow> (False, added, s)
               | nxt # rest' \<Rightarrow>
                   if OpMerge \<notin> Kind (heap s nxt) then (False, added, s)
                   else let (ok, s1) = checkAddOperator env [op] s
                        in if \<not> ok
                           then (False, added,
                                 buryOperator env nxt (cancelOp nxt
                                   (buryOperator env op (cancelOp op s1))))
                           else addWaitingLoop env rest' (added + 2)
                                  (incWaiting desc (PutOperator nxt (PutOperator op s1))))
         else let (ok, s1) = checkAddOperator env [op] s
              in if \<not> ok then (False, added, buryOperator env op (cancelOp op s1))
                 else addWaitingLoop env rest (added + 1) (incWaiting desc (PutOperator op s1)))"

text \<open>
  \<^verbatim>\<open>AddWaitingOperator\<close>: after a loop that ran to its end, \<^verbatim>\<open>ops[0]\<close> is read (a
  panic when there is no argument) and \<^verbatim>\<open>PromoteWaitingOperator\<close> is called.
\<close>

definition AddWaitingOperator ::
  "Env \<Rightarrow> opref list \<Rightarrow> OperatorController \<Rightarrow> panic + int \<times> OperatorController" where
  "AddWaitingOperator env ops s =
     (case addWaitingLoop env ops 0 s of
        (False, added, s1) \<Rightarrow> Inr (added, s1)
      | (True, added, s1) \<Rightarrow>
          (case ops of
             [] \<Rightarrow> Inl IndexOutOfRange
           | _ # _ \<Rightarrow> Inr (added, PromoteWaitingOperator env s1)))"

definition pushHistory :: "Env \<Rightarrow> opref \<Rightarrow> OperatorController \<Rightarrow> OperatorController" where
  "pushHistory env op s = s\<lparr> histories := rev (History env (heap s op)) @ histories s \<rparr>"

definition pushFastOperator :: "Env \<Rightarrow> opref \<Rightarrow> OperatorController \<Rightarrow> OperatorController" where
  "pushFastOperator env op s =
     s\<lparr> fastOperators := (fastOperators s)
          (RegionID (heap s op) \<mapsto> (op, now env + FastOperatorFinishTime)) \<rparr>"

text \<open>
  \<^verbatim>\<open>checkStaleOperator\<close>: the operator is removed (and a waiting one promoted) when the
  step reports an error, or when the region's conf version has moved further than the
  operator accounts for. The difference is taken on unsigned 64-bit integers.
\<close>

definition checkStaleOperator ::
  "Env \<Rightarrow> opref \<Rightarrow> OpStep \<Rightarrow> RegionInfo \<Rightarrow> OperatorController \<Rightarrow> bool \<times> OperatorController" where
  "checkStaleOperator env op step region s =
     (let (r1, s1) = (if CheckInProgress env step region then RemoveOperator env op s else (False, s))
      in if r1 then (True, PromoteWaitingOperator env s1)
         else let changes = GetConfVer region - EpochConfVer (heap s1 op)
              in if changes > ConfVerChanged env (heap s1 op) region
                 then (let (r2, s2) = RemoveOperator env op s1
                       in if r2 then (True, PromoteWaitingOperator env s2) else (False, s2))
                 else (False, s1))"

text \<open>
  \<^verbatim>\<open>Dispatch\<close>: nothing without a running operator for the region; otherwise
  \<^verbatim>\<open>Check\<close> and a branch on the status it leaves. A step is dereferenced in the
  STARTED branch; \<open>NilStep\<close> stands for the panic on a nil step there.
\<close>

definition Dispatch ::
  "Env \<Rightarrow> RegionInfo \<Rightarrow> string \<Rightarrow> OperatorController \<Rightarrow> panic + OperatorController" where
  "Dispatch env region source s =
     (case operators s (GetID region) of
        None \<Rightarrow> Inr s
      | Some op \<Rightarrow>
          (let (step, v) = Check env region (heap s op);
               s1 = setOp op v s
           in case Status (heap s1 op) of
                STARTED \<Rightarrow>
                  (case step of
                     None \<Rightarrow> Inl NilStep
                   | Some st \<Rightarrow>
                       if source = DispatchFromHeartBeat
                       then (let (stale, s2) = checkStaleOperator env op st region s1
                             in if stale then Inr s2
                                else Inr (SendScheduleCommand region st source s2))
                       else Inr (SendScheduleCommand region st source s1))
              | SUCCESS \<Rightarrow>
                  (let s2 = pushHistory env op s1;
                       (removed, s3) = RemoveOperator env op s2;
                       s4 = (if removed then PromoteWaitingOperator env s3 else s3)
                   in if now env - GetStartTime (heap s4 op) < FastOperatorFinishTime
                      then Inr (pushFastOperator env op s4)
                      else Inr s4)
              | TIMEOUT \<Rightarrow>
                  (let (removed, s2) = RemoveOperator env op s1
                   in if removed then Inr (PromoteWaitingOperator env s2) else Inr s2)
              | _ \<Rightarrow>
                  (let (removed, s2) = removeOperatorLocked op s1
                   in if removed
                      then Inr (PromoteWaitingOperator env (buryOperator env op (cancelOp op s2)))
                      else Inr s2)))"

section \<open>Region tree: proofs\<close>

lemma tree_inv_key_sorted: "tree_inv xs \<Longrightarrow> key_sorted xs"
  unfolding tree_inv_def key_sorted_def
  by (erule conjE, erule sorted_wrt_mono_rel[rotated]) (simp add: before_def)

lemma iterate_first:
  "iterate (\<lambda>i result. (False, Some i)) xs None = (case xs of [] \<Rightarrow> None | x # _ \<Rightarrow> Some x)"
  by (cases xs) simp_all

lemma iterate_collect:
  "iterate (\<lambda>over overlaps. if stop over then (False, overlaps) else (True, overlaps @ [over])) xs acc
     = acc @ takeWhile (\<lambda>x. \<not> stop x) xs"
  by (induction xs arbitrary: acc) simp_all

lemma key_sorted_last_max:
  "key_sorted ys \<Longrightarrow> x \<in> set ys \<Longrightarrow> GetStartKey x \<le> GetStartKey (last ys)"
  unfolding key_sorted_def
  by (induction ys) (auto simp: less_imp_le)

lemma key_sorted_filter: "key_sorted xs \<Longrightarrow> key_sorted (filter P xs)"
  unfolding key_sorted_def by (rule sorted_wrt_filter)

lemma case_rev: "(case rev ys of [] \<Rightarrow> a | x # _ \<Rightarrow> f x) = (if ys = [] then a else f (last ys))"
  by (induction ys rule: rev_induct) simp_all

lemma find_rt_eq:
  "find_rt t r =
     (if below t r = [] then None
      else if Contains (last (below t r)) (GetStartKey r) then Some (last (below t r)) else None)"
proof -
  have f: "filter (\<lambda>x. \<not> Less r x) (tree t) = below t r"
    by (simp add: below_def Less_def not_less)
  show ?thesis
    unfolding find_rt_def DescendLessOrEqual_def iterate_first f case_rev
    by simp
qed

lemma find_rt_Some:
  assumes "key_sorted (tree t)" "find_rt t r = Some e"
  shows "e \<in> set (tree t)" "GetStartKey e \<le> GetStartKey r" "Contains e (GetStartKey r)"
    "\<And>x. x \<in> set (tree t) \<Longrightarrow> GetStartKey x \<le> GetStartKey r \<Longrightarrow> GetStartKey x \<le> GetStartKey e"
proof -
  from assms(2) have ne: "below t r \<noteq> []" and e: "e = last (below t r)"
    and c: "Contains e (GetStartKey r)"
    by (simp_all add: find_rt_eq split: if_splits)
  from ne e have "e \<in> set (below t r)" by simp
  then show "e \<in> set (tree t)" "GetStartKey e \<le> GetStartKey r" by (simp_all add: below_def)
  show "Contains e (GetStartKey r)" by fact
  fix x assume "x \<in> set (tree t)" "GetStartKey x \<le> GetStartKey r"
  then have "x \<in> set (below t r)" by (simp add: below_def)
  moreover have "key_sorted (below t r)" unfolding below_def by (rule key_sorted_filter[OF assms(1)])
  ultimately show "GetStartKey x \<le> GetStartKey e" unfolding e by (rule key_sorted_last_max[rotated])
qed

lemma find_rt_None:
  assumes "key_sorted (tree t)" "find_rt t r = None" "x \<in> set (tree t)" "GetStartKey x \<le> GetStartKey r"
  shows "\<exists>e \<in> set (tree t). GetStartKey x \<le> GetStartKey e \<and> GetStartKey e \<le> GetStartKey r
            \<and> \<not> Contains e (GetStartKey r)"
proof -
  from assms(3,4) have x: "x \<in> set (below t r)" by (simp add: below_def)
  then have ne: "below t r \<noteq> []" by (cases "below t r") simp_all
  with assms(2) have nc: "\<not> Contains (last (below t r)) (GetStartKey r)"
    by (simp add: find_rt_eq split: if_splits)
  from ne have "last (below t r) \<in> set (below t r)" by simp
  then have zin: "last (below t r) \<in> set (tree t)" "GetStartKey (last (below t r)) \<le> GetStartKey r"
    by (simp_all add: below_def)
  have "key_sorted (below t r)" unfolding below_def by (rule key_sorted_filter[OF assms(1)])
  then have "GetStartKey x \<le> GetStartKey (last (below t r))" using x by (rule key_sorted_last_max)
  with zin nc show ?thesis by blast
qed

lemma getOverlaps_eq:
  "getOverlaps t r =
     takeWhile (\<lambda>x. \<not> stop_at r x) (filter (\<lambda>x. \<not> GetStartKey x < GetStartKey (start_item t r)) (tree t))"
  unfolding getOverlaps_def AscendGreaterOrEqual_def Let_def start_item_def[symmetric] Less_def
  using iterate_collect[of "stop_at r" _ "[]"]
  by (simp add: stop_at_def)

lemma takeWhile_stop_filter:
  "key_sorted ys \<Longrightarrow> takeWhile (\<lambda>x. \<not> stop_at r x) ys = filter (\<lambda>x. \<not> stop_at r x) ys"
proof (induction ys)
  case Nil
  then show ?case by simp
next
  case (Cons y ys)
  then have ks: "key_sorted ys" and lt: "\<forall>z \<in> set ys. GetStartKey y < GetStartKey z"
    by (simp_all add: key_sorted_def)
  show ?case
  proof (cases "stop_at r y")
    case True
    with lt have "\<forall>z \<in> set ys. stop_at r z"
      by (auto simp: stop_at_def intro: order_trans less_imp_le)
    then have "filter (\<lambda>x. \<not> stop_at r x) ys = []" by (simp add: filter_empty_conv)
    with True show ?thesis by simp
  next
    case False
    with Cons.IH[OF ks] show ?thesis by simp
  qed
qed

lemma set_getOverlaps:
  "key_sorted (tree t) \<Longrightarrow>
   set (getOverlaps t r) =
     {x \<in> set (tree t). \<not> GetStartKey x < GetStartKey (start_item t r) \<and> \<not> stop_at r x}"
  by (auto simp: getOverlaps_eq takeWhile_stop_filter key_sorted_filter)

lemma getOverlaps_aggregates:
  "getOverlaps (t\<lparr>totalSize := a, totalWriteBytesRate := b, totalWriteKeysRate := c\<rparr>) r
     = getOverlaps t r"
  by (simp add: getOverlaps_def find_rt_def)

lemma tree_fold_update_delete:
  "tree (fold update_delete os t) = filter (\<lambda>x. \<forall>d \<in> set os. GetStartKey x \<noteq> GetStartKey d) (tree t)"
proof (induction os arbitrary: t)
  case Nil
  then show ?case by simp
next
  case (Cons a os)
  have "tree (update_delete a t) = filter (\<lambda>x. GetStartKey x \<noteq> GetStartKey a) (tree t)"
    by (auto simp: update_delete_def Delete_def Less_def intro: filter_cong)
  then have "tree (fold update_delete (a # os) t) =
      filter (\<lambda>x. \<forall>d \<in> set os. GetStartKey x \<noteq> GetStartKey d)
        (filter (\<lambda>x. GetStartKey x \<noteq> GetStartKey a) (tree t))"
    by (simp add: Cons.IH)
  also have "\<dots> = filter (\<lambda>x. \<forall>d \<in> set (a # os). GetStartKey x \<noteq> GetStartKey d) (tree t)"
    unfolding filter_filter by (rule filter_cong) auto
  finally show ?case .
qed

lemma tree_update:
  "tree (fst (update t r)) =
     ReplaceOrInsert r
       (filter (\<lambda>x. \<forall>d \<in> set (getOverlaps t r). GetStartKey x \<noteq> GetStartKey d) (tree t))"
  by (simp add: update_def Let_def tree_fold_update_delete getOverlaps_aggregates)

lemma set_ReplaceOrInsert: "set (ReplaceOrInsert r xs) \<subseteq> insert r (set xs)"
  by (induction xs) auto

lemma ReplaceOrInsert_sorted:
  "sorted_wrt before xs \<Longrightarrow>
   \<forall>x \<in> set xs. GetStartKey x \<noteq> GetStartKey r \<longrightarrow> before x r \<or> before r x \<Longrightarrow>
   sorted_wrt before (ReplaceOrInsert r xs)"
proof (induction xs)
  case Nil
  then show ?case by simp
next
  case (Cons x xs)
  from Cons.prems have sx: "sorted_wrt before xs" and xb: "\<forall>y \<in> set xs. before x y"
    and h: "\<forall>y \<in> set xs. GetStartKey y \<noteq> GetStartKey r \<longrightarrow> before y r \<or> before r y"
    and hx: "GetStartKey x \<noteq> GetStartKey r \<longrightarrow> before x r \<or> before r x"
    by simp_all
  have later: "\<forall>y \<in> set xs. GetStartKey x < GetStartKey y" using xb by (simp add: before_def)
  consider (lt) "GetStartKey r < GetStartKey x" | (gt) "GetStartKey x < GetStartKey r"
    | (eq) "GetStartKey x = GetStartKey r" by (meson linorder_cases)
  then show ?case
  proof cases
    case lt
    with hx have rx: "before r x" by (auto simp: before_def)
    have "\<forall>y \<in> set xs. before r y"
    proof
      fix y assume y: "y \<in> set xs"
      with later lt have "GetStartKey r < GetStartKey y" by (meson less_trans)
      with h y show "before r y" by (auto simp: before_def)
    qed
    with lt rx Cons.prems(1) show ?thesis by (simp add: Less_def)
  next
    case gt
    with hx have xr: "before x r" by (auto simp: before_def)
    have "\<forall>y \<in> set (ReplaceOrInsert r xs). before x y"
      using set_ReplaceOrInsert[of r xs] xr xb by auto
    moreover from gt have "\<not> GetStartKey r < GetStartKey x" by simp
    ultimately show ?thesis using gt Cons.IH[OF sx h] by (simp add: Less_def)
  next
    case eq
    have "\<forall>y \<in> set xs. before r y"
    proof
      fix y assume y: "y \<in> set xs"
      with later eq have "GetStartKey r < GetStartKey y" by simp
      with h y show "before r y" by (auto simp: before_def)
    qed
    with eq sx show ?thesis by (simp add: Less_def)
  qed
qed

lemma sorted_wrt_before_pair:
  "sorted_wrt before xs \<Longrightarrow> a \<in> set xs \<Longrightarrow> b \<in> set xs \<Longrightarrow>
   GetStartKey a < GetStartKey b \<Longrightarrow> before a b"
  by (induction xs) (auto simp: before_def)

lemma sorted_wrt_before_unique:
  "sorted_wrt before xs \<Longrightarrow> a \<in> set xs \<Longrightarrow> b \<in> set xs \<Longrightarrow>
   GetStartKey a = GetStartKey b \<Longrightarrow> a = b"
  by (induction xs) (auto simp: before_def)

lemma update_keeps_apart:
  assumes inv: "tree_inv (tree t)" and ok: "range_ok r"
    and x: "x \<in> set (tree t)" and xo: "x \<notin> set (getOverlaps t r)"
    and ne: "GetStartKey x \<noteq> GetStartKey r"
  shows "before x r \<or> before r x"
proof -
  have ks: "key_sorted (tree t)" using inv by (rule tree_inv_key_sorted)
  have sw: "sorted_wrt before (tree t)" using inv by (simp add: tree_inv_def)
  from xo x have d: "GetStartKey x < GetStartKey (start_item t r) \<or> stop_at r x"
    by (auto simp: set_getOverlaps[OF ks])
  show ?thesis
  proof (cases "stop_at r x")
    case True
    then have e: "GetEndKey r \<noteq> []" "GetEndKey r \<le> GetStartKey x" by (simp_all add: stop_at_def)
    with ok have "GetStartKey r \<le> GetStartKey x" by (auto simp: range_ok_def)
    with ne have "GetStartKey r < GetStartKey x" by simp
    with e show ?thesis by (simp add: before_def)
  next
    case False
    with d have lt: "GetStartKey x < GetStartKey (start_item t r)" by simp
    show ?thesis
    proof (cases "find_rt t r")
      case None
      with lt have xr: "GetStartKey x < GetStartKey r" by (simp add: start_item_def)
      from xr have "GetStartKey x \<le> GetStartKey r" by simp
      from find_rt_None[OF ks None x this] obtain e where e: "e \<in> set (tree t)"
        "GetStartKey x \<le> GetStartKey e" "GetStartKey e \<le> GetStartKey r"
        "\<not> Contains e (GetStartKey r)" by auto
      from e(3,4) have ee: "GetEndKey e \<noteq> []" "GetEndKey e \<le> GetStartKey r"
        by (auto simp: Contains_def)
      show ?thesis
      proof (cases "GetStartKey x = GetStartKey e")
        case True
        with x e(1) have "x = e" by (intro sorted_wrt_before_unique[OF sw])
        with ee xr show ?thesis by (simp add: before_def)
      next
        case False
        with e(2) have "GetStartKey x < GetStartKey e" by simp
        from sorted_wrt_before_pair[OF sw x e(1) this]
        have "GetEndKey x \<noteq> []" "GetEndKey x \<le> GetStartKey e" by (simp_all add: before_def)
        with e(3) xr show ?thesis by (auto simp: before_def)
      qed
    next
      case (Some e)
      with lt have xe: "GetStartKey x < GetStartKey e" by (simp add: start_item_def)
      note f = find_rt_Some[OF ks Some]
      from sorted_wrt_before_pair[OF sw x f(1) xe]
      have "GetEndKey x \<noteq> []" "GetEndKey x \<le> GetStartKey e" by (simp_all add: before_def)
      with f(2) xe show ?thesis by (auto simp: before_def)
    qed
  qed
qed

lemma update_inv:
  assumes inv: "tree_inv (tree t)" and ok: "range_ok r"
  shows "tree_inv (tree (fst (update t r)))"
proof -
  let ?rest = "filter (\<lambda>x. \<forall>d \<in> set (getOverlaps t r). GetStartKey x \<noteq> GetStartKey d) (tree t)"
  have sw: "sorted_wrt before ?rest" using inv by (simp add: tree_inv_def sorted_wrt_filter)
  have apart: "\<forall>x \<in> set ?rest. GetStartKey x \<noteq> GetStartKey r \<longrightarrow> before x r \<or> before r x"
  proof (intro ballI impI)
    fix x assume x: "x \<in> set ?rest" and ne: "GetStartKey x \<noteq> GetStartKey r"
    then have "x \<in> set (tree t)" "x \<notin> set (getOverlaps t r)" by auto
    then show "before x r \<or> before r x" using ne by (intro update_keeps_apart[OF inv ok])
  qed
  have "sorted_wrt before (ReplaceOrInsert r ?rest)"
    using sw apart by (rule ReplaceOrInsert_sorted)
  moreover have "\<forall>x \<in> set (ReplaceOrInsert r ?rest). range_ok x"
    using set_ReplaceOrInsert[of r ?rest] inv ok by (auto simp: tree_inv_def)
  ultimately show ?thesis by (simp add: tree_update tree_inv_def)
qed

lemma remove_inv: "tree_inv (tree t) \<Longrightarrow> tree_inv (tree (remove_rt t r))"
  by (auto simp: remove_rt_def Delete_def tree_inv_def sorted_wrt_filter split: option.splits)

lemma fold_apply_call_inv:
  "tree_inv (tree t) \<Longrightarrow> \<forall>c \<in> set cs. call_ok c \<Longrightarrow> tree_inv (tree (fold apply_call cs t))"
proof (induction cs arbitrary: t)
  case Nil
  then show ?case by simp
next
  case (Cons c cs)
  have "tree_inv (tree (apply_call c t))"
    using Cons.prems by (cases c) (simp_all add: update_inv remove_inv)
  with Cons show ?case by simp
qed

lemma tree_inv_overlap_free: "tree_inv xs \<Longrightarrow> overlap_free xs"
  unfolding overlap_free_def tree_inv_def
  using sorted_wrt_before_pair by (fastforce simp: before_def)

lemmas rt_eval = run_calls_def update_def remove_rt_def TotalSize_def TotalWriteRate_def
  length_rt_def find_rt_def getOverlaps_def AscendGreaterOrEqual_def DescendLessOrEqual_def
  Delete_def Less_def Contains_def newRegionTree_def update_delete_def GetWriteRate_def Let_def
  mk_region_def with_rates_def ex_R1_def ex_R2_def ex_R3_def ex_R4_def ex_R1_stale_def
  ex_inverted_def ex_calls_def ex_tree_def ex_query_def

lemma ex_calls_ok: "\<forall>c \<in> set ex_calls. call_ok c"
  by (simp add: ex_calls_def range_ok_def ex_R1_def ex_R2_def ex_R3_def ex_R4_def
      mk_region_def with_rates_def)

lemma ex_calls_tree: "tree (run_calls ex_calls) = [ex_R2]"
  by (simp add: rt_eval)

lemma ex_inverted_tree:
  "tree (run_calls [Update ex_R2, Update ex_inverted]) = [ex_R2, ex_inverted]"
  by (simp add: rt_eval)

lemma ex_remove_tree:
  "run_calls [Update ex_R1, Update ex_R2, Remove ex_R1_stale] =
     \<lparr> tree = [ex_R2], totalSize = 27, totalWriteBytesRate = 11, totalWriteKeysRate = 4 \<rparr>"
  by (simp add: rt_eval)

subsection \<open>Claim C1: the aggregates after update and remove\<close>

text \<open>
  Claim C1 says that after every sequence of \<^verbatim>\<open>update\<close> and \<^verbatim>\<open>remove\<close> calls
  \<^verbatim>\<open>totalSize\<close> and the two write-rate totals equal the sums over the stored regions,
  also when \<^verbatim>\<open>remove\<close> is given an object with the id of the stored entry and another
  size or write rate. The code does not do that: \<^verbatim>\<open>remove\<close> lowers the totals by the
  values of its argument, not by those of the entry it deletes. After inserting region 1
  (size 10, rates 4 and 2) and region 2 (size 20, rates 8 and 3) and removing region 1 through
  an object of size 3 and rates 1 and 1, the tree holds region 2 alone, whose size is 20 and
  whose rates are 8 and 3, while \<^verbatim>\<open>TotalSize()\<close> returns 27 and
  \<^verbatim>\<open>TotalWriteRate()\<close> returns 11 and 4.
\<close>

theorem remove_stale_object_breaks_aggregates:
  "tree (run_calls [Update ex_R1, Update ex_R2, Remove ex_R1_stale]) = [ex_R2] \<and>
   sum_size [ex_R2] = 20 \<and>
   totalSize (run_calls [Update ex_R1, Update ex_R2, Remove ex_R1_stale]) = 27 \<and>
   TotalSize (run_calls [Update ex_R1, Update ex_R2, Remove ex_R1_stale]) = 27 \<and>
   sum_write_bytes [ex_R2] = 8 \<and> sum_write_keys [ex_R2] = 3 \<and>
   TotalWriteRate (run_calls [Update ex_R1, Update ex_R2, Remove ex_R1_stale]) = (11, 4) \<and>
   \<not> aggregates_consistent (run_calls [Update ex_R1, Update ex_R2, Remove ex_R1_stale])"
  unfolding ex_remove_tree
  by (simp add: sum_size_def sum_write_bytes_def sum_write_keys_def aggregates_consistent_def
      TotalSize_def TotalWriteRate_def length_rt_def ex_R2_def mk_region_def with_rates_def)

subsection \<open>Claim C5: stored regions never overlap\<close>

text \<open>
  Claim C5 says that after every sequence of \<^verbatim>\<open>update\<close> and \<^verbatim>\<open>remove\<close> calls
  no two stored entries overlap. As stated it fails when a region with an inverted key range
  is inserted: with \<open>[b, d)\<close> stored, inserting a region that starts at \<open>c\<close> and ends
  at \<open>a\<close> finds no overlap (the iterator stops at once, since \<open>a \<le> b\<close>), and both
  regions end up stored although \<open>d\<close> lies above \<open>c\<close>.
\<close>

theorem inverted_range_overlaps_counterexample:
  "\<not> overlap_free (tree (run_calls [Update ex_R2, Update ex_inverted]))"
  unfolding ex_inverted_tree
  by (simp add: overlap_free_def ex_R2_def ex_inverted_def mk_region_def with_rates_def)

text \<open>
  Claim C5, amended: for every sequence of \<^verbatim>\<open>update\<close> and \<^verbatim>\<open>remove\<close> calls,
  starting from the empty tree, in which every region passed to \<^verbatim>\<open>update\<close> has a key
  range that is not inverted (its end key is empty or not below its start key), no two stored
  entries overlap: of two entries with different start keys, the one starting first has a
  non-empty end key at or below the other's start key.
\<close>

theorem update_remove_non_overlap:
  "\<forall>c \<in> set cs. call_ok c \<Longrightarrow> overlap_free (tree (run_calls cs))"
  unfolding run_calls_def
proof (rule tree_inv_overlap_free, rule fold_apply_call_inv)
  show "tree_inv (tree newRegionTree)" by (simp add: tree_inv_def newRegionTree_def)
qed

theorem update_remove_non_overlap_witness:
  "list_all call_ok ex_calls \<and> tree (run_calls ex_calls) = [ex_R2] \<and>
   overlap_free (tree (run_calls ex_calls))"
  using update_remove_non_overlap[OF ex_calls_ok] ex_calls_ok ex_calls_tree
  by (simp add: list_all_iff)

subsection \<open>Claim C6: what getOverlaps returns\<close>





text \<open>
  The overlap test is the set-theoretic one on non-empty ranges: two such ranges intersect
  exactly when some key lies in both.
\<close>

lemma intersects_common_key:
  assumes "range_nonempty q" "range_nonempty e"
  shows "intersects q e \<longleftrightarrow> (\<exists>k. Contains q k \<and> Contains e k)"
proof
  assume i: "intersects q e"
  let ?k = "max (GetStartKey q) (GetStartKey e)"
  from i assms have "Contains q ?k" "Contains e ?k"
    by (auto simp: intersects_def Contains_def range_nonempty_def max_def)
  then show "\<exists>k. Contains q k \<and> Contains e k" by blast
next
  assume "\<exists>k. Contains q k \<and> Contains e k"
  then obtain k where "Contains q k" "Contains e k" by blast
  then show "intersects q e"
    by (auto simp: intersects_def Contains_def)
qed







end
